theory Spec2Isabelle
  imports Main
begin

section \<open>The photo-editor workflow of \<open>src/App.tsx\<close>\<close>

text \<open>
  The \<open>App\<close> component owns six pieces of React state and three handlers:
  \<open>handleImageUpload\<close>, \<open>setBackgroundOption\<close> and the asynchronous
  \<open>handleProcessImage\<close>. The model below keeps the component state as a record, makes
  every \<open>setX\<close> call an explicit state update, and cuts \<open>handleProcessImage\<close> at its two
  \<open>await\<close> points into three resumptions. What the platform answers (the object URL made
  by \<open>URL.createObjectURL\<close>, the settlement of \<open>fileToBase64\<close>, the settlement of
  \<open>processImage\<close>) is an input of the step that receives it.
\<close>

subsection \<open>Data\<close>

text \<open>
  Modelled from the spec: the enum \<open>BackgroundOption\<close> of \<open>./types\<close>, which is imported by
  \<open>App.tsx\<close> but is not among the sources. The spec gives it the two variants
  \<open>ORIGINAL\<close> and \<open>WHITE\<close>, the two members \<open>App.tsx\<close> refers to.
\<close>

datatype BackgroundOption = ORIGINAL | WHITE

text \<open>A browser \<open>File\<close>: a name, a declared media type and the bytes.\<close>

record File =
  file_name :: string
  file_type :: string
  file_bytes :: "nat list"

text \<open>
  A value caught by \<open>catch (err: any)\<close>: \<open>undefined\<close> or \<open>null\<close>, on which reading a
  property throws, or any other value, whose \<open>message\<close> property may be absent
  (\<open>reader.onerror\<close> rejects with an event object, which has none).
\<close>

datatype JsError = Nullish | ErrorObject "string option"

text \<open>The settlement of a promise.\<close>

datatype 'a settled = Resolved 'a | Rejected JsError

text \<open>What \<open>fileToBase64\<close> resolves with.\<close>

record EncodedFile =
  base64 :: string
  mimeType :: string

text \<open>The six \<open>useState\<close> cells of \<open>App\<close> (lines 183-188).\<close>

record AppState =
  uploadedFile :: "File option"
  previewUrl :: "string option"
  processedImageUrl :: "string option"
  backgroundOption :: BackgroundOption
  isLoading :: bool
  error :: "string option"

text \<open>
  A call of \<open>handleProcessImage\<close> that got past its guard. The closure holds the
  \<open>uploadedFile\<close> and \<open>backgroundOption\<close> of the render that made it
  (\<open>useCallback\<close> with both as dependencies), so the attempt keeps both.
\<close>

datatype Stage = AwaitingEncode | AwaitingRemote | Settled

record Attempt =
  att_file :: File
  att_option :: BackgroundOption
  att_stage :: Stage

text \<open>
  The component together with what surrounds it: the calls of \<open>handleProcessImage\<close> made so
  far (an attempt is named by its position), the object URLs that were created and not
  revoked, and the calls made to the two collaborators.
\<close>

record World =
  app :: AppState
  pending :: "Attempt list"
  objectUrls :: "(string \<times> File) list"
  encodeCalls :: "File list"
  remoteCalls :: "(string \<times> string \<times> string) list"

definition initialApp :: AppState where
  "initialApp =
     \<lparr>uploadedFile = None, previewUrl = None, processedImageUrl = None,
      backgroundOption = WHITE, isLoading = False, error = None\<rparr>"

definition initialWorld :: World where
  "initialWorld =
     \<lparr>app = initialApp, pending = [], objectUrls = [], encodeCalls = [], remoteCalls = []\<rparr>"

subsection \<open>State setters and platform calls\<close>

definition setUploadedFile :: "File option \<Rightarrow> World \<Rightarrow> World" where
  "setUploadedFile v w = w\<lparr>app := (app w)\<lparr>uploadedFile := v\<rparr>\<rparr>"

definition setPreviewUrl :: "string option \<Rightarrow> World \<Rightarrow> World" where
  "setPreviewUrl v w = w\<lparr>app := (app w)\<lparr>previewUrl := v\<rparr>\<rparr>"

definition setProcessedImageUrl :: "string option \<Rightarrow> World \<Rightarrow> World" where
  "setProcessedImageUrl v w = w\<lparr>app := (app w)\<lparr>processedImageUrl := v\<rparr>\<rparr>"

definition setBackgroundOption :: "BackgroundOption \<Rightarrow> World \<Rightarrow> World" where
  "setBackgroundOption v w = w\<lparr>app := (app w)\<lparr>backgroundOption := v\<rparr>\<rparr>"

definition setIsLoading :: "bool \<Rightarrow> World \<Rightarrow> World" where
  "setIsLoading v w = w\<lparr>app := (app w)\<lparr>isLoading := v\<rparr>\<rparr>"

definition setError :: "string option \<Rightarrow> World \<Rightarrow> World" where
  "setError v w = w\<lparr>app := (app w)\<lparr>error := v\<rparr>\<rparr>"

text \<open>
  \<open>URL.createObjectURL(file)\<close>: the browser registers the URL it hands out. Nothing in
  \<open>App.tsx\<close> calls \<open>URL.revokeObjectURL\<close>, so there is no operation that removes one.
\<close>

definition createObjectURL :: "File \<Rightarrow> string \<Rightarrow> World \<Rightarrow> World" where
  "createObjectURL file objectUrl w = w\<lparr>objectUrls := objectUrls w @ [(objectUrl, file)]\<rparr>"

definition fileToBase64_call :: "File \<Rightarrow> World \<Rightarrow> World" where
  "fileToBase64_call file w = w\<lparr>encodeCalls := encodeCalls w @ [file]\<rparr>"

definition processImage_call :: "string \<Rightarrow> string \<Rightarrow> string \<Rightarrow> World \<Rightarrow> World" where
  "processImage_call b m p w = w\<lparr>remoteCalls := remoteCalls w @ [(b, m, p)]\<rparr>"

definition setStage :: "nat \<Rightarrow> Stage \<Rightarrow> World \<Rightarrow> World" where
  "setStage i st w = w\<lparr>pending := (pending w)[i := (pending w ! i)\<lparr>att_stage := st\<rparr>]\<rparr>"

definition attemptAt :: "World \<Rightarrow> nat \<Rightarrow> Attempt option" where
  "attemptAt w i = (if i < length (pending w) then Some (pending w ! i) else None)"

subsection \<open>The handlers\<close>

text \<open>\<open>handleImageUpload\<close>, lines 190-196.\<close>

definition handleImageUpload :: "File \<Rightarrow> string \<Rightarrow> World \<Rightarrow> World" where
  "handleImageUpload file objectUrl w =
     (let w1 = setUploadedFile (Some file) w;
          w2 = setProcessedImageUrl None w1;
          w3 = setError None w2;
          w4 = createObjectURL file objectUrl w3
      in setPreviewUrl (Some objectUrl) w4)"

text \<open>The \<open>prompt\<close> of lines 211-213.\<close>

definition prompt :: "BackgroundOption \<Rightarrow> string" where
  "prompt opt =
     (if opt = WHITE
      then ''Enhance this photo to be a clean, modern, professional, realistic headshot. Replace the background with a clean, plain white background with natural, soft studio lighting.''
      else ''Enhance this photo to be a clean, modern, professional, realistic headshot with great natural lighting. Keep the original background but make it look more polished, slightly blurred, and high-quality, as if taken by a professional photographer.'')"

text \<open>
  \<open>msg || "An unexpected error occurred."\<close> for the \<open>message\<close> read at line 221: an
  absent and an empty message are both falsy.
\<close>

definition errorText :: "string option \<Rightarrow> string" where
  "errorText msg =
     (case msg of
        None \<Rightarrow> ''An unexpected error occurred.''
      | Some m \<Rightarrow> if m = [] then ''An unexpected error occurred.'' else m)"

text \<open>
  The \<open>catch\<close> block followed by the \<open>finally\<close> block, lines 220-224. On \<open>undefined\<close> or
  \<open>null\<close> the read of \<open>err.message\<close> throws inside \<open>catch\<close>, so \<open>setError\<close> is not
  reached; \<open>finally\<close> runs in either case.
\<close>

definition catchFinally :: "JsError \<Rightarrow> World \<Rightarrow> World" where
  "catchFinally err w =
     (case err of
        Nullish \<Rightarrow> setIsLoading False w
      | ErrorObject msg \<Rightarrow> setIsLoading False (setError (Some (errorText msg)) w))"

text \<open>
  \<open>handleProcessImage\<close> from its entry to the first \<open>await\<close>, lines 199-209: the guard,
  the three resets, and the call of \<open>fileToBase64\<close>.
\<close>

definition handleProcessImage :: "World \<Rightarrow> World" where
  "handleProcessImage w =
     (case uploadedFile (app w) of
        None \<Rightarrow> setError (Some ''Please upload an image first.'') w
      | Some file \<Rightarrow>
          (let w1 = setIsLoading True w;
               w2 = setError None w1;
               w3 = setProcessedImageUrl None w2;
               w4 = fileToBase64_call file w3
           in w4\<lparr>pending := pending w4 @
                 [\<lparr>att_file = file, att_option = backgroundOption (app w),
                   att_stage = AwaitingEncode\<rparr>]\<rparr>))"

text \<open>
  Attempt \<open>i\<close> resumes after \<open>await fileToBase64(uploadedFile)\<close>, lines 209-215: on a
  value it builds the prompt and calls \<open>processImage\<close>; on a rejection it runs
  \<open>catch\<close> and \<open>finally\<close>. A promise settles once, so any other attempt state is left alone.
\<close>

definition handleProcessImage_encoded :: "nat \<Rightarrow> EncodedFile settled \<Rightarrow> World \<Rightarrow> World" where
  "handleProcessImage_encoded i r w =
     (case attemptAt w i of
        None \<Rightarrow> w
      | Some a \<Rightarrow>
          if att_stage a \<noteq> AwaitingEncode then w
          else (case r of
                  Resolved enc \<Rightarrow>
                    setStage i AwaitingRemote
                      (processImage_call (base64 enc) (mimeType enc) (prompt (att_option a)) w)
                | Rejected err \<Rightarrow> setStage i Settled (catchFinally err w)))"

text \<open>
  Attempt \<open>i\<close> resumes after \<open>await processImage(...)\<close>, lines 215-224: on a value it
  stores the data URL and runs \<open>finally\<close>; on a rejection it runs \<open>catch\<close> and \<open>finally\<close>.
\<close>

definition handleProcessImage_processed :: "nat \<Rightarrow> string settled \<Rightarrow> World \<Rightarrow> World" where
  "handleProcessImage_processed i r w =
     (case attemptAt w i of
        None \<Rightarrow> w
      | Some a \<Rightarrow>
          if att_stage a \<noteq> AwaitingRemote then w
          else (case r of
                  Resolved resultBase64 \<Rightarrow>
                    (let newImageUrl = ''data:image/png;base64,'' @ resultBase64;
                         w1 = setProcessedImageUrl (Some newImageUrl) w
                     in setStage i Settled (setIsLoading False w1))
                | Rejected err \<Rightarrow> setStage i Settled (catchFinally err w)))"

text \<open>\<open>canProcess\<close>, line 227: \<open>uploadedFile && !isLoading\<close>, read as a truth value.\<close>

definition canProcess :: "AppState \<Rightarrow> bool" where
  "canProcess s = (uploadedFile s \<noteq> None \<and> \<not> isLoading s)"

subsection \<open>The component driven by its environment\<close>

text \<open>
  What can happen to a mounted \<open>App\<close>: a file is chosen (line 236), an option is chosen
  (line 238), the button is clicked (lines 239-241; a disabled button delivers no click), or
  one of the two awaited promises of an attempt settles.
\<close>

datatype Event =
    Upload File string
  | SelectOption BackgroundOption
  | Click
  | EncodeSettled nat "EncodedFile settled"
  | RemoteSettled nat "string settled"

fun step :: "Event \<Rightarrow> World \<Rightarrow> World" where
  "step (Upload file objectUrl) w = handleImageUpload file objectUrl w"
| "step (SelectOption opt) w = setBackgroundOption opt w"
| "step Click w = (if canProcess (app w) then handleProcessImage w else w)"
| "step (EncodeSettled i r) w = handleProcessImage_encoded i r w"
| "step (RemoteSettled i r) w = handleProcessImage_processed i r w"

definition run :: "Event list \<Rightarrow> World \<Rightarrow> World" where
  "run evs w = foldl (\<lambda>w' e. step e w') w evs"

text \<open>A string cell is shown by the view (\<open>url ? ...\<close>, \<open>error && ...\<close>) when it is truthy.\<close>

definition nonEmpty :: "string option \<Rightarrow> bool" where
  "nonEmpty v = (case v of None \<Rightarrow> False | Some s \<Rightarrow> s \<noteq> [])"

subsection \<open>Notions used by the properties\<close>

text \<open>An attempt is in flight while one of its two awaited promises is still open.\<close>

definition inFlight :: "World \<Rightarrow> bool" where
  "inFlight w = (\<exists>a \<in> set (pending w). att_stage a \<noteq> Settled)"

text \<open>
  An event completes an attempt when it settles the promise the attempt is waiting for and
  the attempt ends there: any settlement of \<open>processImage\<close>, or a rejection of
  \<open>fileToBase64\<close>.
\<close>

fun completes :: "Event \<Rightarrow> World \<Rightarrow> bool" where
  "completes (RemoteSettled i r) w =
     (case attemptAt w i of None \<Rightarrow> False | Some a \<Rightarrow> att_stage a = AwaitingRemote)"
| "completes (EncodeSettled i (Rejected err)) w =
     (case attemptAt w i of None \<Rightarrow> False | Some a \<Rightarrow> att_stage a = AwaitingEncode)"
| "completes e w = False"

text \<open>The value an attempt fails with, when the event is a rejection.\<close>

fun failure :: "Event \<Rightarrow> JsError option" where
  "failure (EncodeSettled i (Rejected err)) = Some err"
| "failure (RemoteSettled i (Rejected err)) = Some err"
| "failure e = None"

text \<open>The intents that settle no promise: an upload and the choice of an option.\<close>

fun quiet :: "Event \<Rightarrow> bool" where
  "quiet (Upload file objectUrl) = True"
| "quiet (SelectOption opt) = True"
| "quiet e = False"

text \<open>The file of the last upload among the events, \<open>file\<close> when there is none.\<close>

fun newest :: "File \<Rightarrow> Event list \<Rightarrow> File" where
  "newest file [] = file"
| "newest file (Upload file' objectUrl # es) = newest file' es"
| "newest file (e # es) = newest file es"

text \<open>The uploaded file, the result, the error and the spinner flag of a world.\<close>

definition observed :: "World \<Rightarrow> File option \<times> string option \<times> string option \<times> bool" where
  "observed w =
     (uploadedFile (app w), processedImageUrl (app w), error (app w), isLoading (app w))"

text \<open>The object URLs an event makes the browser allocate.\<close>

fun allocated :: "Event \<Rightarrow> (string \<times> File) list" where
  "allocated (Upload file objectUrl) = [(objectUrl, file)]"
| "allocated e = []"

text \<open>
  What the disabled button maintains along every run: only the newest attempt can be open,
  the spinner flag says whether one is, and while it is set both message cells are empty.
\<close>

definition gateInv :: "World \<Rightarrow> bool" where
  "gateInv w =
     ((\<forall>j < length (pending w).
         att_stage (pending w ! j) \<noteq> Settled \<longrightarrow> Suc j = length (pending w)) \<and>
      (isLoading (app w) = inFlight w) \<and>
      (isLoading (app w) \<longrightarrow>
         error (app w) = None \<and> processedImageUrl (app w) = None \<and>
         uploadedFile (app w) \<noteq> None))"

text \<open>Two photos and an encoding, used to run the scenarios.\<close>

definition photoA :: File where
  "photoA = \<lparr>file_name = ''a.jpg'', file_type = ''image/jpeg'', file_bytes = [255, 216, 255]\<rparr>"

definition photoB :: File where
  "photoB = \<lparr>file_name = ''b.png'', file_type = ''image/png'', file_bytes = [137, 80, 78, 71]\<rparr>"

definition encodedA :: EncodedFile where
  "encodedA = \<lparr>base64 = ''/9j/'', mimeType = ''image/jpeg''\<rparr>"

text \<open>
  Scenario A up to the remote call: a JPEG is uploaded, the button is clicked, the encoder
  answers. Scenario D up to the same point, with a second upload while the attempt is open.
\<close>

definition scenarioA :: "Event list" where
  "scenarioA = [Upload photoA ''blob:a'', Click, EncodeSettled 0 (Resolved encodedA)]"

definition scenarioD :: "Event list" where
  "scenarioD =
     [Upload photoA ''blob:a'', Click, Upload photoB ''blob:b'',
      EncodeSettled 0 (Resolved encodedA)]"

section \<open>The gate invariant\<close>

lemmas setter_defs = setUploadedFile_def setPreviewUrl_def setProcessedImageUrl_def
  setBackgroundOption_def setIsLoading_def setError_def createObjectURL_def
  fileToBase64_call_def processImage_call_def setStage_def

lemmas handler_defs = handleImageUpload_def handleProcessImage_def
  handleProcessImage_encoded_def handleProcessImage_processed_def catchFinally_def
  attemptAt_def canProcess_def

lemmas scenario_defs = run_def initialWorld_def initialApp_def photoA_def photoB_def
  encodedA_def

lemmas eval_defs = scenarioA_def scenarioD_def scenario_defs handler_defs setter_defs Let_def

lemma inFlight_nth:
  "inFlight w = (\<exists>j < length (pending w). att_stage (pending w ! j) \<noteq> Settled)"
  unfolding inFlight_def by (metis in_set_conv_nth)

lemma gateInv_init: "gateInv initialWorld"
  by (simp add: gateInv_def inFlight_def initialWorld_def initialApp_def)

lemma gateInv_upload: "gateInv w \<Longrightarrow> gateInv (handleImageUpload f u w)"
  by (simp add: gateInv_def inFlight_def handleImageUpload_def setter_defs Let_def)

lemma gateInv_select: "gateInv w \<Longrightarrow> gateInv (setBackgroundOption opt w)"
  by (simp add: gateInv_def inFlight_def setter_defs)

lemma gateInv_click:
  "gateInv w \<Longrightarrow> canProcess (app w) \<Longrightarrow> gateInv (handleProcessImage w)"
  apply (clarsimp simp: gateInv_def inFlight_nth canProcess_def handleProcessImage_def
      setter_defs Let_def nth_append split: option.splits)
  apply (auto simp: less_Suc_eq)
  done

lemma gateInv_open:
  assumes "gateInv w" and "i < length (pending w)"
    and "att_stage (pending w ! i) \<noteq> Settled"
  shows "Suc i = length (pending w)" and "isLoading (app w)" and "error (app w) = None"
    and "processedImageUrl (app w) = None" and "uploadedFile (app w) \<noteq> None"
proof -
  show "Suc i = length (pending w)" using assms by (simp add: gateInv_def)
  show l: "isLoading (app w)" using assms by (auto simp: gateInv_def inFlight_nth)
  show "error (app w) = None" "processedImageUrl (app w) = None"
    "uploadedFile (app w) \<noteq> None"
    using assms(1) l by (simp_all add: gateInv_def)
qed

lemma gateInv_others_settled:
  assumes "gateInv w" and "i < length (pending w)"
    and "att_stage (pending w ! i) \<noteq> Settled"
    and "j < length (pending w)" and "j \<noteq> i"
  shows "att_stage (pending w ! j) = Settled"
proof (rule ccontr)
  assume "att_stage (pending w ! j) \<noteq> Settled"
  then have "Suc j = length (pending w)" using assms(1,4) by (simp add: gateInv_def)
  moreover have "Suc i = length (pending w)" using assms(1-3) by (simp add: gateInv_def)
  ultimately show False using assms(5) by simp
qed

lemma gateInv_settle:
  assumes "gateInv w" and "i < length (pending w)"
    and "att_stage (pending w ! i) \<noteq> Settled"
    and "pending w' = (pending w)[i := (pending w ! i)\<lparr>att_stage := Settled\<rparr>]"
    and "\<not> isLoading (app w')"
  shows "gateInv w'"
proof -
  have "att_stage (pending w' ! j) = Settled" if "j < length (pending w')" for j
    using that assms(4) gateInv_others_settled[OF assms(1-3), of j]
    by (cases "j = i") simp_all
  then show ?thesis using assms(5) by (simp add: gateInv_def inFlight_nth)
qed

lemma gateInv_advance:
  assumes "gateInv w" and "i < length (pending w)"
    and "att_stage (pending w ! i) \<noteq> Settled"
    and "pending w' = (pending w)[i := (pending w ! i)\<lparr>att_stage := AwaitingRemote\<rparr>]"
    and "app w' = app w"
  shows "gateInv w'"
proof -
  note u = gateInv_open[OF assms(1-3)]
  have a: "att_stage (pending w' ! j) \<noteq> Settled \<longrightarrow> Suc j = length (pending w')"
    if "j < length (pending w')" for j
    using that assms(4) gateInv_others_settled[OF assms(1-3), of j] u(1)
    by (cases "j = i") simp_all
  have "att_stage (pending w' ! i) \<noteq> Settled" "i < length (pending w')"
    using assms(2,4) by simp_all
  then have "inFlight w'" unfolding inFlight_nth by blast
  then show ?thesis using a u assms(5) by (simp add: gateInv_def)
qed

lemma gateInv_encoded: "gateInv w \<Longrightarrow> gateInv (handleProcessImage_encoded i r w)"
  by (auto simp: handleProcessImage_encoded_def attemptAt_def catchFinally_def setter_defs
      split: option.splits settled.splits JsError.splits if_splits
      intro: gateInv_settle[where i = i] gateInv_advance[where i = i])

lemma gateInv_processed: "gateInv w \<Longrightarrow> gateInv (handleProcessImage_processed i r w)"
  by (auto simp: handleProcessImage_processed_def attemptAt_def catchFinally_def setter_defs
      Let_def split: option.splits settled.splits JsError.splits if_splits
      intro: gateInv_settle[where i = i])

lemma gateInv_step: "gateInv w \<Longrightarrow> gateInv (step e w)"
  by (cases e)
    (simp_all add: gateInv_upload gateInv_select gateInv_click gateInv_encoded
      gateInv_processed)

lemma gateInv_run: "gateInv w \<Longrightarrow> gateInv (run evs w)"
  by (induction evs arbitrary: w) (simp_all add: run_def gateInv_step)

lemma gateInv_reachable: "gateInv (run evs initialWorld)"
  by (rule gateInv_run[OF gateInv_init])

lemma run_snoc: "run (evs @ [e]) w = step e (run evs w)"
  by (simp add: run_def)

section \<open>What the steps of an attempt do\<close>

lemma completes_open:
  assumes "completes e w"
  obtains i where "i < length (pending w)" and "att_stage (pending w ! i) \<noteq> Settled"
    and "(\<exists>r. e = RemoteSettled i r \<and> att_stage (pending w ! i) = AwaitingRemote) \<or>
         (\<exists>err. e = EncodeSettled i (Rejected err) \<and> att_stage (pending w ! i) = AwaitingEncode)"
  using assms
  by (cases "(e, w)" rule: completes.cases)
     (auto simp: attemptAt_def split: option.splits if_splits)

lemma completes_remote:
  "i < length (pending w) \<Longrightarrow> att_stage (pending w ! i) = AwaitingRemote \<Longrightarrow>
   completes (RemoteSettled i r) w"
  by (simp add: attemptAt_def)

lemma completes_encode:
  "i < length (pending w) \<Longrightarrow> att_stage (pending w ! i) = AwaitingEncode \<Longrightarrow>
   completes (EncodeSettled i (Rejected err)) w"
  by (simp add: attemptAt_def)

lemma step_success:
  assumes "i < length (pending w)" and "att_stage (pending w ! i) = AwaitingRemote"
  shows "app (step (RemoteSettled i (Resolved p)) w) =
           (app w)\<lparr>processedImageUrl := Some (''data:image/png;base64,'' @ p), isLoading := False\<rparr>"
  using assms by (simp add: handler_defs setter_defs Let_def)

lemma step_failure:
  assumes "completes e w" and "failure e = Some (ErrorObject msg)"
  shows "app (step e w) = (app w)\<lparr>error := Some (errorText msg), isLoading := False\<rparr>"
  using assms
  by (cases "(e, w)" rule: completes.cases)
     (auto simp: handler_defs setter_defs Let_def split: option.splits if_splits settled.splits)

lemma step_nullish:
  assumes "completes e w" and "failure e = Some Nullish"
  shows "app (step e w) = (app w)\<lparr>isLoading := False\<rparr>"
  using assms
  by (cases "(e, w)" rule: completes.cases)
     (auto simp: handler_defs setter_defs Let_def split: option.splits if_splits settled.splits)

lemma step_encoded:
  assumes "i < length (pending w)" and "att_stage (pending w ! i) = AwaitingEncode"
  shows "app (step (EncodeSettled i (Resolved enc)) w) = app w"
    and "pending (step (EncodeSettled i (Resolved enc)) w)
           = (pending w)[i := (pending w ! i)\<lparr>att_stage := AwaitingRemote\<rparr>]"
  using assms by (simp_all add: handler_defs setter_defs)

lemma errorText_nonempty: "errorText msg \<noteq> []"
  by (simp add: errorText_def split: option.splits)

lemma upload_app:
  "app (handleImageUpload f u w) =
     (app w)\<lparr>uploadedFile := Some f, processedImageUrl := None, error := None,
             previewUrl := Some u\<rparr>"
  by (simp add: handleImageUpload_def setter_defs Let_def)

lemma upload_pending: "pending (handleImageUpload f u w) = pending w"
  by (simp add: handleImageUpload_def setter_defs Let_def)

lemma step_objectUrls: "objectUrls (step e w) = objectUrls w @ allocated e"
  by (cases e)
     (auto simp: handler_defs setter_defs Let_def
        split: option.splits settled.splits JsError.splits)

lemma run_Cons: "run (e # es) w = run es (step e w)"
  by (simp add: run_def)

lemma newest_append: "newest f (us @ vs) = newest (newest f us) vs"
  by (induction f us rule: newest.induct) simp_all

text \<open>
  Uploads and option choices leave every attempt as it is and write neither message cell:
  once an upload has cleared both, they stay empty until an attempt resumes.
\<close>

lemma quiet_run:
  assumes "\<forall>e \<in> set us. quiet e" and "uploadedFile (app w) = Some g"
    and "processedImageUrl (app w) = None" and "error (app w) = None"
  shows "pending (run us w) = pending w \<and>
         uploadedFile (app (run us w)) = Some (newest g us) \<and>
         processedImageUrl (app (run us w)) = None \<and> error (app (run us w)) = None"
  using assms
proof (induction us arbitrary: w g)
  case Nil
  then show ?case by (simp add: run_def)
next
  case (Cons e us)
  from Cons.prems(1) have rest: "\<forall>e \<in> set us. quiet e" and pe: "quiet e" by simp_all
  show ?case
  proof (cases e)
    case (Upload f' u')
    have "pending (run us (step e w)) = pending (step e w) \<and>
         uploadedFile (app (run us (step e w))) = Some (newest f' us) \<and>
         processedImageUrl (app (run us (step e w))) = None \<and>
         error (app (run us (step e w))) = None"
      by (rule Cons.IH[OF rest]) (simp_all add: Upload upload_app)
    then show ?thesis by (simp add: run_Cons Upload upload_pending)
  next
    case (SelectOption opt)
    have "pending (run us (step e w)) = pending (step e w) \<and>
         uploadedFile (app (run us (step e w))) = Some (newest g us) \<and>
         processedImageUrl (app (run us (step e w))) = None \<and>
         error (app (run us (step e w))) = None"
      using Cons.prems
      by (intro Cons.IH[OF rest]) (simp_all add: SelectOption setBackgroundOption_def)
    then show ?thesis by (simp add: run_Cons SelectOption setBackgroundOption_def)
  next
    case Click
    with pe show ?thesis by simp
  next
    case (EncodeSettled i r)
    with pe show ?thesis by simp
  next
    case (RemoteSettled i r)
    with pe show ?thesis by simp
  qed
qed

text \<open>
  Along every run from the initial state, an attempt that ends with a result or with a
  caught value other than \<open>undefined\<close> and \<open>null\<close> leaves exactly one of the two cells
  non-empty, and a failure of that kind shows its message or the fallback.
\<close>

lemma exactly_one_unless_nullish:
  assumes "completes e (run evs initialWorld)" and "failure e \<noteq> Some Nullish"
  shows "nonEmpty (processedImageUrl (app (step e (run evs initialWorld)))) \<noteq>
         nonEmpty (error (app (step e (run evs initialWorld))))"
proof -
  let ?w = "run evs initialWorld"
  from assms(1) obtain i where i: "i < length (pending ?w)"
      "att_stage (pending ?w ! i) \<noteq> Settled"
    and e: "(\<exists>r. e = RemoteSettled i r \<and> att_stage (pending ?w ! i) = AwaitingRemote) \<or>
         (\<exists>err. e = EncodeSettled i (Rejected err) \<and>
            att_stage (pending ?w ! i) = AwaitingEncode)"
    by (rule completes_open)
  note clean = gateInv_open(3,4)[OF gateInv_reachable i]
  show ?thesis
  proof (cases "failure e")
    case None
    with e obtain p where p: "e = RemoteSettled i (Resolved p)"
      and st: "att_stage (pending ?w ! i) = AwaitingRemote"
      by (auto elim: failure.elims)
    show ?thesis unfolding p using step_success[OF i(1) st, of p] clean
      by (simp add: nonEmpty_def)
  next
    case (Some err)
    with assms(2) obtain msg where "failure e = Some (ErrorObject msg)"
      by (cases err) simp_all
    from step_failure[OF assms(1) this] clean show ?thesis
      by (simp add: nonEmpty_def errorText_nonempty)
  qed
qed

lemma failure_message_unless_nullish:
  assumes "completes e (run evs initialWorld)" and "failure e = Some (ErrorObject msg)"
  shows "error (app (step e (run evs initialWorld))) = Some (errorText msg) \<and>
         \<not> isLoading (app (step e (run evs initialWorld))) \<and>
         processedImageUrl (app (step e (run evs initialWorld))) = None"
proof -
  let ?w = "run evs initialWorld"
  from assms(1) obtain i where i: "i < length (pending ?w)"
      "att_stage (pending ?w ! i) \<noteq> Settled"
    by (rule completes_open)
  have clean: "processedImageUrl (app ?w) = None"
    by (rule gateInv_open(4)[OF gateInv_reachable i])
  show ?thesis using step_failure[OF assms] clean by simp
qed

section \<open>The claims\<close>

subsection \<open>C1: a stale attempt after a newer upload\<close>

text \<open>
  Claim C1, as the code has it. \<open>App.tsx\<close> keeps no generation counter and compares
  nothing when an attempt resumes. Let attempt \<open>i\<close> be suspended, at the encode step or at
  the remote call, when a file is uploaded, and let any further uploads and option choices
  follow (\<open>us\<close>, and \<open>vs\<close> after the encoder has answered). The upload clears
  \<open>processedImageUrl\<close> and \<open>error\<close>, and the attempt goes on: when it later completes,
  its outcome is written into the state all the same. A success stores the data URL of its
  payload, a failure with a caught value other than \<open>undefined\<close> and \<open>null\<close> stores its
  message or the fallback, both clear \<open>isLoading\<close>, and \<open>uploadedFile\<close> stays the newest
  upload.
\<close>

theorem stale_completion_written:
  assumes "attemptAt w i = Some a"
    and "\<forall>e \<in> set us. quiet e" and "\<forall>e \<in> set vs. quiet e"
  shows "let w0 = step (Upload f u) w;
             w1 = run us w0;
             w2 = run vs (step (EncodeSettled i (Resolved enc)) w1);
             url = Some (''data:image/png;base64,'' @ p);
             shown = Some (errorText msg)
         in observed w0 = (Some f, None, None, isLoading (app w)) \<and>
            (att_stage a = AwaitingRemote \<longrightarrow>
               observed (step (RemoteSettled i (Resolved p)) w1)
                 = (Some (newest f us), url, None, False) \<and>
               observed (step (RemoteSettled i (Rejected (ErrorObject msg))) w1)
                 = (Some (newest f us), None, shown, False)) \<and>
            (att_stage a = AwaitingEncode \<longrightarrow>
               observed (step (EncodeSettled i (Rejected (ErrorObject msg))) w1)
                 = (Some (newest f us), None, shown, False) \<and>
               observed (step (RemoteSettled i (Resolved p)) w2)
                 = (Some (newest f (us @ vs)), url, None, False) \<and>
               observed (step (RemoteSettled i (Rejected (ErrorObject msg))) w2)
                 = (Some (newest f (us @ vs)), None, shown, False))"
proof -
  let ?w0 = "step (Upload f u) w"
  let ?w1 = "run us ?w0"
  let ?we = "step (EncodeSettled i (Resolved enc)) ?w1"
  let ?w2 = "run vs ?we"
  from assms(1) have i: "i < length (pending w)" and a: "pending w ! i = a"
    by (auto simp: attemptAt_def split: if_splits)
  have o0: "observed ?w0 = (Some f, None, None, isLoading (app w))"
    by (simp add: observed_def upload_app)
  have p0: "pending ?w0 = pending w" by (simp add: upload_pending)
  have w1: "pending ?w1 = pending w \<and> uploadedFile (app ?w1) = Some (newest f us) \<and>
      processedImageUrl (app ?w1) = None \<and> error (app ?w1) = None"
    using quiet_run[OF assms(2), of ?w0 f] p0 by (simp add: upload_app)
  then have i1: "i < length (pending ?w1)" and a1: "pending ?w1 ! i = a"
    using i a by simp_all
  have late: "observed (step (RemoteSettled i (Resolved p)) w')
                = (Some g, Some (''data:image/png;base64,'' @ p), None, False) \<and>
              observed (step (RemoteSettled i (Rejected (ErrorObject msg))) w')
                = (Some g, None, Some (errorText msg), False)"
    if "i < length (pending w')" and "att_stage (pending w' ! i) = AwaitingRemote"
      and "uploadedFile (app w') = Some g" and "processedImageUrl (app w') = None"
      and "error (app w') = None" for w' g
  proof -
    have "failure (RemoteSettled i (Rejected (ErrorObject msg))) = Some (ErrorObject msg)"
      by simp
    from step_failure[OF completes_remote[OF that(1,2)] this] step_success[OF that(1,2), of p]
    show ?thesis using that(3-5) by (simp add: observed_def)
  qed
  have remote: "observed (step (RemoteSettled i (Resolved p)) ?w1)
                 = (Some (newest f us), Some (''data:image/png;base64,'' @ p), None, False) \<and>
               observed (step (RemoteSettled i (Rejected (ErrorObject msg))) ?w1)
                 = (Some (newest f us), None, Some (errorText msg), False)"
    if "att_stage a = AwaitingRemote"
    using late[of ?w1 "newest f us"] i1 a1 w1 that by simp
  have encode: "observed (step (EncodeSettled i (Rejected (ErrorObject msg))) ?w1)
                 = (Some (newest f us), None, Some (errorText msg), False) \<and>
               observed (step (RemoteSettled i (Resolved p)) ?w2)
                 = (Some (newest f (us @ vs)), Some (''data:image/png;base64,'' @ p), None, False) \<and>
               observed (step (RemoteSettled i (Rejected (ErrorObject msg))) ?w2)
                 = (Some (newest f (us @ vs)), None, Some (errorText msg), False)"
    if st: "att_stage a = AwaitingEncode"
  proof -
    from st a1 have s1: "att_stage (pending ?w1 ! i) = AwaitingEncode" by simp
    have "failure (EncodeSettled i (Rejected (ErrorObject msg))) = Some (ErrorObject msg)"
      by simp
    from step_failure[OF completes_encode[OF i1 s1] this]
    have first: "observed (step (EncodeSettled i (Rejected (ErrorObject msg))) ?w1)
                 = (Some (newest f us), None, Some (errorText msg), False)"
      using w1 by (simp add: observed_def)
    note enc = step_encoded[OF i1 s1, of enc]
    have we: "uploadedFile (app ?we) = Some (newest f us)"
        "processedImageUrl (app ?we) = None" "error (app ?we) = None"
      using enc(1) w1 by simp_all
    have w2: "pending ?w2 = pending ?we \<and>
        uploadedFile (app ?w2) = Some (newest (newest f us) vs) \<and>
        processedImageUrl (app ?w2) = None \<and> error (app ?w2) = None"
      by (rule quiet_run[OF assms(3) we])
    have i2: "i < length (pending ?w2)" and s2: "att_stage (pending ?w2 ! i) = AwaitingRemote"
      using w2 enc(2) i1 by simp_all
    from late[OF i2 s2, of "newest f (us @ vs)"] w2 first show ?thesis
      by (simp add: newest_append)
  qed
  show ?thesis unfolding Let_def using o0 remote encode by blast
qed

text \<open>
  Claim C1, two instances. Scenario D: photo A is uploaded and the button clicked, photo B
  is uploaded while the attempt waits for the encoder, the encoder answers, and the remote
  call then succeeds or fails. The same upload while scenario A waits for the remote call.
\<close>

theorem stale_completion_written_witness:
  "attemptAt (run [Upload photoA ''blob:a'', Click] initialWorld) 0
     = Some \<lparr>att_file = photoA, att_option = WHITE, att_stage = AwaitingEncode\<rparr> \<and>
   observed (step (RemoteSettled 0 (Resolved ''Zm9v''))
      (step (EncodeSettled 0 (Resolved encodedA))
        (step (Upload photoB ''blob:b'') (run [Upload photoA ''blob:a'', Click] initialWorld))))
     = (Some photoB, Some ''data:image/png;base64,Zm9v'', None, False) \<and>
   observed (step (RemoteSettled 0 (Rejected (ErrorObject (Some ''quota exceeded''))))
      (step (EncodeSettled 0 (Resolved encodedA))
        (step (Upload photoB ''blob:b'') (run [Upload photoA ''blob:a'', Click] initialWorld))))
     = (Some photoB, None, Some ''quota exceeded'', False) \<and>
   attemptAt (run scenarioA initialWorld) 0
     = Some \<lparr>att_file = photoA, att_option = WHITE, att_stage = AwaitingRemote\<rparr> \<and>
   observed (step (RemoteSettled 0 (Resolved ''Zm9v''))
      (step (Upload photoB ''blob:b'') (run scenarioA initialWorld)))
     = (Some photoB, Some ''data:image/png;base64,Zm9v'', None, False)"
proof -
  have h: "attemptAt (run [Upload photoA ''blob:a'', Click] initialWorld) 0
     = Some \<lparr>att_file = photoA, att_option = WHITE, att_stage = AwaitingEncode\<rparr>"
    by (simp add: eval_defs)
  have g: "attemptAt (run scenarioA initialWorld) 0
     = Some \<lparr>att_file = photoA, att_option = WHITE, att_stage = AwaitingRemote\<rparr>"
    by (simp add: eval_defs)
  have n: "\<forall>e \<in> set ([]::Event list). quiet e" by simp
  have m: "errorText (Some ''quota exceeded'') = ''quota exceeded''"
    by (simp add: errorText_def)
  show ?thesis
    using h g m
      stale_completion_written[OF h n n, of photoB "''blob:b''" encodedA "''Zm9v''"
        "Some ''quota exceeded''"]
      stale_completion_written[OF g n n, of photoB "''blob:b''" encodedA "''Zm9v''"
        "Some ''quota exceeded''"]
    by (simp add: Let_def run_def)
qed

text \<open>
  Claim C1 as stated fails (E2E scenario D): photo A is uploaded and processed, photo B is
  uploaded while the attempt on A is suspended, and A's attempt then resolves. Both cells
  were empty before the late completion; after it the result of A is shown next to the
  upload B, for which no attempt was ever started, and a late failure shows A's message.
\<close>

theorem stale_completion_counterexample:
  "uploadedFile (app (run (scenarioD @ [RemoteSettled 0 (Resolved ''Zm9v'')]) initialWorld))
     = Some photoB \<and>
   map att_file (pending (run (scenarioD @ [RemoteSettled 0 (Resolved ''Zm9v'')]) initialWorld))
     = [photoA] \<and>
   photoA \<noteq> photoB \<and>
   processedImageUrl (app (run scenarioD initialWorld)) = None \<and>
   processedImageUrl
     (app (run (scenarioD @ [RemoteSettled 0 (Resolved ''Zm9v'')]) initialWorld))
     = Some ''data:image/png;base64,Zm9v'' \<and>
   error (app (run scenarioD initialWorld)) = None \<and>
   error (app (run (scenarioD @ [RemoteSettled 0 (Rejected (ErrorObject (Some ''quota exceeded'')))])
     initialWorld)) = Some ''quota exceeded''"
  by (simp add: eval_defs errorText_def)

subsection \<open>C2: exactly one of result and error after an attempt\<close>

text \<open>
  Claim C2 against the code. Scenario A, and the remote call rejects with \<open>undefined\<close>:
  the attempt completes, \<open>isLoading\<close> is cleared by \<open>finally\<close>, and neither
  \<open>processedImageUrl\<close> nor \<open>error\<close> is non-empty, where the claim asks for exactly one.
  The fallback of line 221 is meant for a failure without a message, but the read of
  \<open>err.message\<close> throws before it applies.
\<close>

theorem nullish_rejection_neither:
  "completes (RemoteSettled 0 (Rejected Nullish)) (run scenarioA initialWorld) \<and>
   \<not> nonEmpty (processedImageUrl
        (app (step (RemoteSettled 0 (Rejected Nullish)) (run scenarioA initialWorld)))) \<and>
   \<not> nonEmpty (error
        (app (step (RemoteSettled 0 (Rejected Nullish)) (run scenarioA initialWorld)))) \<and>
   \<not> isLoading (app (step (RemoteSettled 0 (Rejected Nullish)) (run scenarioA initialWorld)))"
  by (simp add: eval_defs nonEmpty_def)

subsection \<open>C3: processing without a file\<close>

text \<open>
  Claim C3. When \<open>handleProcessImage\<close> is called with no uploaded file, \<open>error\<close> becomes
  "Please upload an image first.", \<open>isLoading\<close> is unchanged (and is false in every state
  the component can reach), and neither \<open>fileToBase64\<close> nor \<open>processImage\<close> is called:
  no attempt is opened.
\<close>

theorem process_without_file:
  assumes "uploadedFile (app w) = None"
  shows "error (app (handleProcessImage w)) = Some ''Please upload an image first.'' \<and>
         isLoading (app (handleProcessImage w)) = isLoading (app w) \<and>
         (w = run evs initialWorld \<longrightarrow> \<not> isLoading (app (handleProcessImage w))) \<and>
         encodeCalls (handleProcessImage w) = encodeCalls w \<and>
         remoteCalls (handleProcessImage w) = remoteCalls w \<and>
         pending (handleProcessImage w) = pending w \<and>
         processedImageUrl (app (handleProcessImage w)) = processedImageUrl (app w)"
proof -
  have eq: "handleProcessImage w = setError (Some ''Please upload an image first.'') w"
    using assms by (simp add: handleProcessImage_def)
  have "\<not> isLoading (app w)" if "w = run evs initialWorld"
    using gateInv_reachable[of evs] that assms by (auto simp: gateInv_def)
  then show ?thesis unfolding eq by (simp add: setError_def)
qed

text \<open>
  Claim C3, an instance (E2E scenario B): the initial state.
\<close>

theorem process_without_file_witness:
  "uploadedFile (app (run [] initialWorld)) = None \<and>
   error (app (handleProcessImage (run [] initialWorld)))
     = Some ''Please upload an image first.'' \<and>
   \<not> isLoading (app (handleProcessImage (run [] initialWorld))) \<and>
   encodeCalls (handleProcessImage (run [] initialWorld)) = [] \<and>
   remoteCalls (handleProcessImage (run [] initialWorld)) = []"
proof -
  have h: "uploadedFile (app (run [] initialWorld)) = None"
    by (simp add: scenario_defs)
  have c: "encodeCalls (run [] initialWorld) = []" "remoteCalls (run [] initialWorld) = []"
    by (simp_all add: scenario_defs)
  show ?thesis
    using h c process_without_file[OF h, of "[]"] by auto
qed

subsection \<open>C4: a failed attempt\<close>

text \<open>
  Claim C4 against the code. Photo B is uploaded, the button clicked, the encoder answers,
  and the remote call rejects with \<open>undefined\<close>, a failure that carries no message:
  \<open>isLoading\<close> becomes false and \<open>processedImageUrl\<close> stays empty, but \<open>error\<close> stays
  empty too instead of becoming "An unexpected error occurred.".
\<close>

theorem nullish_rejection_no_fallback:
  "failure (RemoteSettled 0 (Rejected Nullish)) = Some Nullish \<and>
   error (app (run [Upload photoB ''blob:b'', Click, EncodeSettled 0 (Resolved encodedA),
                    RemoteSettled 0 (Rejected Nullish)] initialWorld)) = None \<and>
   error (app (run [Upload photoB ''blob:b'', Click, EncodeSettled 0 (Resolved encodedA),
                    RemoteSettled 0 (Rejected Nullish)] initialWorld))
     \<noteq> Some ''An unexpected error occurred.'' \<and>
   \<not> isLoading (app (run [Upload photoB ''blob:b'', Click, EncodeSettled 0 (Resolved encodedA),
                    RemoteSettled 0 (Rejected Nullish)] initialWorld)) \<and>
   processedImageUrl (app (run [Upload photoB ''blob:b'', Click,
                    EncodeSettled 0 (Resolved encodedA),
                    RemoteSettled 0 (Rejected Nullish)] initialWorld)) = None"
  by (simp add: eval_defs)

subsection \<open>C5: a successful attempt\<close>

text \<open>
  Claim C5. Along every run from the initial state, when the remote call of an attempt
  resolves with payload \<open>p\<close>, \<open>processedImageUrl\<close> becomes "data:image/png;base64,"
  followed by \<open>p\<close>, whatever the type of the uploaded file, \<open>isLoading\<close> becomes false and
  \<open>error\<close> is empty.
\<close>

theorem process_success:
  assumes "attemptAt (run evs initialWorld) i = Some a" and "att_stage a = AwaitingRemote"
  shows "processedImageUrl (app (step (RemoteSettled i (Resolved p)) (run evs initialWorld)))
           = Some (''data:image/png;base64,'' @ p) \<and>
         \<not> isLoading (app (step (RemoteSettled i (Resolved p)) (run evs initialWorld))) \<and>
         error (app (step (RemoteSettled i (Resolved p)) (run evs initialWorld))) = None"
proof -
  let ?w = "run evs initialWorld"
  from assms have i: "i < length (pending ?w)" and st: "att_stage (pending ?w ! i) = AwaitingRemote"
    by (auto simp: attemptAt_def split: if_splits)
  from st have "att_stage (pending ?w ! i) \<noteq> Settled" by simp
  then have clean: "error (app ?w) = None"
    using gateInv_open(3)[OF gateInv_reachable i] by simp
  show ?thesis using step_success[OF i st, of p] clean by simp
qed

text \<open>
  Claim C5, an instance (E2E scenario A): a JPEG, option WHITE, payload "Zm9v".
\<close>

theorem process_success_witness:
  "attemptAt (run scenarioA initialWorld) 0
     = Some \<lparr>att_file = photoA, att_option = WHITE, att_stage = AwaitingRemote\<rparr> \<and>
   file_type photoA = ''image/jpeg'' \<and>
   processedImageUrl (app (step (RemoteSettled 0 (Resolved ''Zm9v''))
     (run scenarioA initialWorld))) = Some ''data:image/png;base64,Zm9v'' \<and>
   \<not> isLoading (app (step (RemoteSettled 0 (Resolved ''Zm9v''))
     (run scenarioA initialWorld))) \<and>
   error (app (step (RemoteSettled 0 (Resolved ''Zm9v''))
     (run scenarioA initialWorld))) = None"
proof -
  have h: "attemptAt (run scenarioA initialWorld) 0
     = Some \<lparr>att_file = photoA, att_option = WHITE, att_stage = AwaitingRemote\<rparr>"
    by (simp add: eval_defs)
  have t: "file_type photoA = ''image/jpeg''" by (simp add: photoA_def)
  show ?thesis
    using h t process_success[OF h, of "''Zm9v''"] by simp
qed

subsection \<open>C6: preview object URLs\<close>

text \<open>
  Claim C6, as the code has it. \<open>App.tsx\<close> never calls \<open>URL.revokeObjectURL\<close>, so a
  preview URL stays live when a later upload supersedes it: after any run of uploads, option
  choices, clicks and settlements the live object URLs are those that were live before,
  followed by one more for each upload of the run, in order.
\<close>

theorem object_urls_accumulate:
  "objectUrls (run evs w) = objectUrls w @ concat (map allocated evs)"
proof (induction evs arbitrary: w)
  case Nil
  show ?case by (simp add: run_def)
next
  case (Cons e evs)
  have "run (e # evs) w = run evs (step e w)" by (simp add: run_def)
  then show ?case using Cons.IH[of "step e w"] by (simp add: step_objectUrls)
qed

text \<open>
  Claim C6 as stated fails: after a second upload the preview shows the second object URL,
  and the first, superseded one is still live.
\<close>

theorem preview_release_counterexample:
  "previewUrl (app (run [Upload photoA ''blob:a'', Upload photoB ''blob:b''] initialWorld))
     = Some ''blob:b'' \<and>
   objectUrls (run [Upload photoA ''blob:a'', Upload photoB ''blob:b''] initialWorld)
     = [(''blob:a'', photoA), (''blob:b'', photoB)]"
  by (simp add: eval_defs)

subsection \<open>C7: the readiness gate\<close>

text \<open>
  Claim C7. \<open>canProcess\<close> is true exactly when a file is uploaded and \<open>isLoading\<close> is
  false. Along every run from the initial state, while an attempt is in flight
  \<open>canProcess\<close> is false and a click on the button changes nothing.
\<close>

theorem canProcess_gate:
  "canProcess s = (uploadedFile s \<noteq> None \<and> \<not> isLoading s) \<and>
   (inFlight (run evs initialWorld) \<longrightarrow>
      \<not> canProcess (app (run evs initialWorld)) \<and>
      step Click (run evs initialWorld) = run evs initialWorld)"
proof -
  have "isLoading (app (run evs initialWorld))" if "inFlight (run evs initialWorld)"
    using gateInv_reachable[of evs] that by (simp add: gateInv_def)
  then show ?thesis by (auto simp: canProcess_def)
qed

text \<open>
  Claim C7, an instance: in flight after upload and click; ready after the upload alone;
  not ready in the initial state.
\<close>

theorem canProcess_gate_witness:
  "inFlight (run [Upload photoA ''blob:a'', Click] initialWorld) \<and>
   \<not> canProcess (app (run [Upload photoA ''blob:a'', Click] initialWorld)) \<and>
   step Click (run [Upload photoA ''blob:a'', Click] initialWorld)
     = run [Upload photoA ''blob:a'', Click] initialWorld \<and>
   canProcess (app (run [Upload photoA ''blob:a''] initialWorld)) \<and>
   \<not> canProcess initialApp"
proof -
  have h: "inFlight (run [Upload photoA ''blob:a'', Click] initialWorld)"
    by (simp add: inFlight_def eval_defs)
  have a: "uploadedFile (app (run [Upload photoA ''blob:a''] initialWorld)) \<noteq> None \<and>
      \<not> isLoading (app (run [Upload photoA ''blob:a''] initialWorld))"
    by (simp add: eval_defs)
  have b: "uploadedFile initialApp = None" by (simp add: initialApp_def)
  show ?thesis
    using h a b
      canProcess_gate[of "app (run [Upload photoA ''blob:a''] initialWorld)"
        "[Upload photoA ''blob:a'', Click]"]
      canProcess_gate[of initialApp "[]"]
    by simp
qed

subsection \<open>C8: upload\<close>

text \<open>
  Claim C8. From every state, \<open>handleImageUpload\<close> stores the file, sets \<open>previewUrl\<close> to
  the object URL the browser made for that file, clears \<open>processedImageUrl\<close> and
  \<open>error\<close>, and starts nothing: \<open>isLoading\<close>, the option, the attempts and the calls
  made to the encoder and to the remote service are unchanged.
\<close>

theorem upload_effect:
  "uploadedFile (app (handleImageUpload file objectUrl w)) = Some file \<and>
   previewUrl (app (handleImageUpload file objectUrl w)) = Some objectUrl \<and>
   objectUrls (handleImageUpload file objectUrl w) = objectUrls w @ [(objectUrl, file)] \<and>
   processedImageUrl (app (handleImageUpload file objectUrl w)) = None \<and>
   error (app (handleImageUpload file objectUrl w)) = None \<and>
   isLoading (app (handleImageUpload file objectUrl w)) = isLoading (app w) \<and>
   backgroundOption (app (handleImageUpload file objectUrl w)) = backgroundOption (app w) \<and>
   pending (handleImageUpload file objectUrl w) = pending w \<and>
   encodeCalls (handleImageUpload file objectUrl w) = encodeCalls w \<and>
   remoteCalls (handleImageUpload file objectUrl w) = remoteCalls w \<and>
   step (Upload file objectUrl) w = handleImageUpload file objectUrl w"
  by (simp add: handleImageUpload_def setter_defs Let_def)

subsection \<open>C9: selecting an option\<close>

text \<open>
  Claim C9. \<open>setBackgroundOption\<close> assigns \<open>backgroundOption\<close> and changes nothing
  else: result, error, preview, \<open>isLoading\<close>, the uploaded file, the open attempts, the
  object URLs and the calls made are as before.
\<close>

theorem select_option_frame:
  "backgroundOption (app (setBackgroundOption opt w)) = opt \<and>
   processedImageUrl (app (setBackgroundOption opt w)) = processedImageUrl (app w) \<and>
   error (app (setBackgroundOption opt w)) = error (app w) \<and>
   previewUrl (app (setBackgroundOption opt w)) = previewUrl (app w) \<and>
   isLoading (app (setBackgroundOption opt w)) = isLoading (app w) \<and>
   uploadedFile (app (setBackgroundOption opt w)) = uploadedFile (app w) \<and>
   pending (setBackgroundOption opt w) = pending w \<and>
   objectUrls (setBackgroundOption opt w) = objectUrls w \<and>
   encodeCalls (setBackgroundOption opt w) = encodeCalls w \<and>
   remoteCalls (setBackgroundOption opt w) = remoteCalls w \<and>
   step (SelectOption opt) w = setBackgroundOption opt w"
  by (simp add: setBackgroundOption_def)

subsection \<open>C10: the prompt\<close>

text \<open>
  Claim C10. The prompt depends on the option alone: WHITE gives the fixed instruction
  that replaces the background with a plain white one under soft studio lighting, ORIGINAL
  gives the fixed instruction that keeps the background, polished and slightly blurred, the
  two differ, and the prompt sent to \<open>processImage\<close> by an attempt is the one of the
  attempt's option, whatever the file and its encoding.
\<close>

theorem prompt_fixed:
  "prompt WHITE = ''Enhance this photo to be a clean, modern, professional, realistic headshot. Replace the background with a clean, plain white background with natural, soft studio lighting.'' \<and>
   prompt ORIGINAL = ''Enhance this photo to be a clean, modern, professional, realistic headshot with great natural lighting. Keep the original background but make it look more polished, slightly blurred, and high-quality, as if taken by a professional photographer.'' \<and>
   prompt WHITE \<noteq> prompt ORIGINAL \<and>
   (attemptAt w i = Some a \<and> att_stage a = AwaitingEncode \<longrightarrow>
      remoteCalls (handleProcessImage_encoded i (Resolved enc) w)
        = remoteCalls w @ [(base64 enc, mimeType enc, prompt (att_option a))])"
  by (simp add: prompt_def handleProcessImage_encoded_def setter_defs)

text \<open>
  Claim C10, an instance: option ORIGINAL chosen before the click.
\<close>

theorem prompt_fixed_witness:
  "attemptAt (run [Upload photoA ''blob:a'', SelectOption ORIGINAL, Click] initialWorld) 0
     = Some \<lparr>att_file = photoA, att_option = ORIGINAL, att_stage = AwaitingEncode\<rparr> \<and>
   remoteCalls (handleProcessImage_encoded 0 (Resolved encodedA)
      (run [Upload photoA ''blob:a'', SelectOption ORIGINAL, Click] initialWorld))
     = [(''/9j/'', ''image/jpeg'', prompt ORIGINAL)]"
proof -
  have h: "attemptAt (run [Upload photoA ''blob:a'', SelectOption ORIGINAL, Click] initialWorld) 0
     = Some \<lparr>att_file = photoA, att_option = ORIGINAL, att_stage = AwaitingEncode\<rparr>"
    by (simp add: eval_defs)
  have c: "remoteCalls (run [Upload photoA ''blob:a'', SelectOption ORIGINAL, Click] initialWorld) = []"
    by (simp add: eval_defs)
  show ?thesis
    using h c
      prompt_fixed[of "run [Upload photoA ''blob:a'', SelectOption ORIGINAL, Click] initialWorld"
        0 "\<lparr>att_file = photoA, att_option = ORIGINAL, att_stage = AwaitingEncode\<rparr>" encodedA]
    by (simp add: encodedA_def)
qed

end
